theory Spec2Isabelle
  imports
    Main
    "HOL-Library.Word"
    "HOL-Library.Sublist"
    "HOL-Library.Char_ord"
    "HOL-Library.List_Lexorder"
begin

section \<open>JavaScript strings\<close>

text \<open>
  A JavaScript string is a sequence of 16-bit code units. The header grammar of
  \<^verbatim>\<open>headers.js\<close> rejects every code unit above \<open>0xFF\<close>, as it rejects the
  control characters, so no such unit is ever stored. The strings of this development
  are the Latin-1 ones, for header names and values and for the strings a body is made
  from alike: a \<^typ>\<open>char\<close> is the code unit of the same number (\<open>U+0000\<close> to
  \<open>U+00FF\<close>), and \<^typ>\<open>string\<close> is ordered as JavaScript compares strings, code
  unit by code unit, a proper prefix first.
\<close>

definition unit_of :: "char \<Rightarrow> nat" where
  "unit_of c = of_char c"

text \<open>
  \<^verbatim>\<open>String.prototype.toLowerCase\<close> on Latin-1: \<open>A-Z\<close> and the capital letters
  \<open>U+00C0 .. U+00DE\<close> (without the multiplication sign \<open>U+00D7\<close>) move up by \<open>0x20\<close>;
  every other code unit stays.
\<close>

definition toLowerCase_unit :: "char \<Rightarrow> char" where
  "toLowerCase_unit c =
     (if (0x41 \<le> unit_of c \<and> unit_of c \<le> 0x5A)
         \<or> (0xC0 \<le> unit_of c \<and> unit_of c \<le> 0xDE \<and> unit_of c \<noteq> 0xD7)
      then char_of (unit_of c + 0x20) else c)"

definition toLowerCase :: "string \<Rightarrow> string" where
  "toLowerCase s = map toLowerCase_unit s"

text \<open>\<^verbatim>\<open>Array.prototype.join\<close> on an array of strings.\<close>

fun Array_join :: "string \<Rightarrow> string list \<Rightarrow> string" where
  "Array_join sep [] = []"
| "Array_join sep [x] = x"
| "Array_join sep (x # y # ys) = x @ sep @ Array_join sep (y # ys)"

text \<open>
  The canonicalisation a regular expression with the flag \<^verbatim>\<open>i\<close> (and without
  \<^verbatim>\<open>u\<close>) applies to both sides before it compares two code units: the upper-case
  form when that is one code unit, except that a unit from \<open>0x80\<close> on never folds into
  ASCII. The upper-case forms of \<open>U+00B5\<close> and \<open>U+00FF\<close> lie above \<open>0xFF\<close> and equal
  no Latin-1 unit; the model leaves these two in place.
\<close>

definition Canonicalize :: "char \<Rightarrow> char" where
  "Canonicalize c =
     (if (0x61 \<le> unit_of c \<and> unit_of c \<le> 0x7A)
         \<or> (0xE0 \<le> unit_of c \<and> unit_of c \<le> 0xFE \<and> unit_of c \<noteq> 0xF7)
      then char_of (unit_of c - 0x20) else c)"

section \<open>headers.js\<close>

subsection \<open>Grammar validation\<close>

text \<open>
  Modelled from the spec: \<^verbatim>\<open>isAbortError\<close> of \<^verbatim>\<open>utils/is.js\<close>, which is not
  among the sources. An error a stream emits is an external cancellation (an
  \<^verbatim>\<open>AbortError\<close>), which is passed on as it is, or any other error, which is
  wrapped; both carry their message.
\<close>

datatype stream_error = AbortError string | OtherError string

datatype error =
    InvalidHeaderName string  \<comment> \<open>TypeError: ... is not a legal HTTP header name\<close>
  | InvalidHeaderValue string  \<comment> \<open>TypeError: ... is not a legal HTTP header value\<close>
  | PairsNotIterable  \<comment> \<open>TypeError: Header pairs must be iterable\<close>
  | PairNotObject  \<comment> \<open>TypeError: Each header pair must be an iterable object\<close>
  | PairNotTuple  \<comment> \<open>TypeError: Each header pair must be a name/value tuple\<close>
  | InitNotObject  \<comment> \<open>TypeError: Failed to construct 'Headers'\<close>
  | BodyAlreadyConsumed  \<comment> \<open>TypeError: body used already for: ...\<close>
  | CloneAfterConsumption  \<comment> \<open>Error: cannot clone body after it is used\<close>
  | BodyTimeout  \<comment> \<open>FetchError of type body-timeout\<close>
  | BodyTooLarge  \<comment> \<open>FetchError of type max-size\<close>
  | BodySystemError stream_error  \<comment> \<open>FetchError of type system, around the stream's error\<close>
  | BodyAllocationError  \<comment> \<open>FetchError of type system: Could not create Buffer\<close>
  | Upstream stream_error  \<comment> \<open>the stream's own AbortError, passed on as it is\<close>
  | ParseError  \<comment> \<open>the SyntaxError of JSON.parse\<close>

text \<open>The class \<^verbatim>\<open>\w\<close>: digits, ASCII letters and the underscore.\<close>

definition word_unit :: "nat \<Rightarrow> bool" where
  "word_unit n \<longleftrightarrow>
     (0x30 \<le> n \<and> n \<le> 0x39) \<or> (0x41 \<le> n \<and> n \<le> 0x5A) \<or> n = 0x5F
     \<or> (0x61 \<le> n \<and> n \<le> 0x7A)"

text \<open>
  The units the class of \<^verbatim>\<open>invalidTokenRegex\<close> lists after its negation sign: the
  backquote \<open>0x60\<close>, the hyphen \<open>0x2D\<close>, \<^verbatim>\<open>\w\<close>, and
  \<^verbatim>\<open>! # $ % & ' * + . | ~\<close>.
\<close>

definition token_unit :: "char \<Rightarrow> bool" where
  "token_unit c \<longleftrightarrow>
     unit_of c = 0x60 \<or> unit_of c = 0x2D \<or> word_unit (unit_of c)
     \<or> unit_of c = 0x21 \<or> unit_of c = 0x23 \<or> unit_of c = 0x24 \<or> unit_of c = 0x25
     \<or> unit_of c = 0x26 \<or> unit_of c = 0x27 \<or> unit_of c = 0x2A \<or> unit_of c = 0x2B
     \<or> unit_of c = 0x2E \<or> unit_of c = 0x7C \<or> unit_of c = 0x7E"

definition invalidTokenRegex_test :: "string \<Rightarrow> bool" where
  "invalidTokenRegex_test s = list_ex (\<lambda>c. \<not> token_unit c) s"

text \<open>The units of \<^verbatim>\<open>invalidHeaderCharRegex\<close>: tab, \<open>0x20 .. 0x7E\<close>, \<open>0x80 .. 0xFF\<close>.\<close>

definition header_unit :: "char \<Rightarrow> bool" where
  "header_unit c \<longleftrightarrow>
     unit_of c = 0x09 \<or> (0x20 \<le> unit_of c \<and> unit_of c \<le> 0x7E)
     \<or> (0x80 \<le> unit_of c \<and> unit_of c \<le> 0xFF)"

definition invalidHeaderCharRegex_test :: "string \<Rightarrow> bool" where
  "invalidHeaderCharRegex_test s = list_ex (\<lambda>c. \<not> header_unit c) s"

definition validateName :: "string \<Rightarrow> error + unit" where
  "validateName name =
     (if invalidTokenRegex_test name \<or> name = [] then Inl (InvalidHeaderName name)
      else Inr ())"

definition validateValue :: "string \<Rightarrow> error + unit" where
  "validateValue v =
     (if invalidHeaderCharRegex_test v then Inl (InvalidHeaderValue v) else Inr ())"

subsection \<open>The inherited list of pairs (URLSearchParams)\<close>

text \<open>
  \<^verbatim>\<open>Headers\<close> extends the platform's \<^verbatim>\<open>URLSearchParams\<close>, whose state is
  its list of name/value pairs. These are the inherited operations the class calls, as
  the URL standard defines them.
\<close>

type_synonym header_list = "(string \<times> string) list"

definition USP_append :: "string \<Rightarrow> string \<Rightarrow> header_list \<Rightarrow> header_list" where
  "USP_append name v l = l @ [(name, v)]"

definition USP_delete :: "string \<Rightarrow> header_list \<Rightarrow> header_list" where
  "USP_delete name l = filter (\<lambda>p. fst p \<noteq> name) l"

definition USP_has :: "string \<Rightarrow> header_list \<Rightarrow> bool" where
  "USP_has name l = list_ex (\<lambda>p. fst p = name) l"

definition USP_getAll :: "string \<Rightarrow> header_list \<Rightarrow> string list" where
  "USP_getAll name l = map snd (filter (\<lambda>p. fst p = name) l)"

fun USP_set :: "string \<Rightarrow> string \<Rightarrow> header_list \<Rightarrow> header_list" where
  "USP_set name v [] = [(name, v)]"
| "USP_set name v (p # l) =
     (if fst p = name then (name, v) # USP_delete name l else p # USP_set name v l)"

text \<open>\<^verbatim>\<open>sort()\<close> orders the pairs by name and keeps the order of equal names.\<close>

definition USP_sort :: "header_list \<Rightarrow> header_list" where
  "USP_sort l = sort_key fst l"

definition USP_keys :: "header_list \<Rightarrow> string list" where
  "USP_keys l = map fst l"

text \<open>
  \<^verbatim>\<open>new Set(iterable).keys()\<close>: the elements in the order of their first
  insertion.
\<close>

definition Set_add :: "'a list \<Rightarrow> 'a \<Rightarrow> 'a list" where
  "Set_add acc x = (if x \<in> set acc then acc else acc @ [x])"

definition Set_keys :: "'a list \<Rightarrow> 'a list" where
  "Set_keys xs = foldl Set_add [] xs"

subsection \<open>The methods behind the proxy\<close>

definition Headers_append :: "string \<Rightarrow> string \<Rightarrow> header_list \<Rightarrow> error + header_list" where
  "Headers_append name v h =
     (case validateName name of
        Inl e \<Rightarrow> Inl e
      | Inr _ \<Rightarrow>
          (case validateValue v of
             Inl e \<Rightarrow> Inl e
           | Inr _ \<Rightarrow> Inr (USP_append (toLowerCase name) v h)))"

definition Headers_set :: "string \<Rightarrow> string \<Rightarrow> header_list \<Rightarrow> error + header_list" where
  "Headers_set name v h =
     (case validateName name of
        Inl e \<Rightarrow> Inl e
      | Inr _ \<Rightarrow>
          (case validateValue v of
             Inl e \<Rightarrow> Inl e
           | Inr _ \<Rightarrow> Inr (USP_set (toLowerCase name) v h)))"

definition Headers_delete :: "string \<Rightarrow> header_list \<Rightarrow> error + header_list" where
  "Headers_delete name h =
     (case validateName name of
        Inl e \<Rightarrow> Inl e
      | Inr _ \<Rightarrow> Inr (USP_delete (toLowerCase name) h))"

definition Headers_has :: "string \<Rightarrow> header_list \<Rightarrow> error + bool" where
  "Headers_has name h =
     (case validateName name of
        Inl e \<Rightarrow> Inl e
      | Inr _ \<Rightarrow> Inr (USP_has (toLowerCase name) h))"

definition Headers_getAll :: "string \<Rightarrow> header_list \<Rightarrow> error + string list" where
  "Headers_getAll name h =
     (case validateName name of
        Inl e \<Rightarrow> Inl e
      | Inr _ \<Rightarrow> Inr (USP_getAll (toLowerCase name) h))"

text \<open>
  \<^verbatim>\<open>keys\<close> sorts the target in place, so it returns the new state beside the
  names.
\<close>

definition Headers_keys :: "header_list \<Rightarrow> string list \<times> header_list" where
  "Headers_keys h = (let target = USP_sort h in (Set_keys (USP_keys target), target))"

text \<open>\<^verbatim>\<open>/^content-encoding$/i.test(name)\<close>\<close>

definition content_encoding_test :: "string \<Rightarrow> bool" where
  "content_encoding_test name \<longleftrightarrow>
     map Canonicalize name = map Canonicalize ''content-encoding''"

text \<open>
  \<^verbatim>\<open>get\<close> reads through \<^verbatim>\<open>this.getAll\<close>, that is through the proxy, so an
  illegal name is an error here too. The result \<open>None\<close> is \<^verbatim>\<open>null\<close>.
\<close>

definition Headers_get :: "string \<Rightarrow> header_list \<Rightarrow> error + string option" where
  "Headers_get name h =
     (case Headers_getAll name h of
        Inl e \<Rightarrow> Inl e
      | Inr vs \<Rightarrow>
          (if length vs = 0 then Inr None
           else
             (let v = Array_join '', '' vs
              in Inr (Some (if content_encoding_test name then toLowerCase v else v)))))"

subsection \<open>Construction\<close>

text \<open>
  The shapes of \<^verbatim>\<open>init\<close> the constructor tells apart: \<^verbatim>\<open>null\<close> or
  \<^verbatim>\<open>undefined\<close>; an iterable object, given by its items, each an iterable object
  (given by its own items) or not an object; an object with no iterator, given by its
  entries; an object whose \<^verbatim>\<open>Symbol.iterator\<close> is not a function; a value that is no
  object. Copying from another \<^verbatim>\<open>Headers\<close> is not part of this development.
\<close>

datatype pair_init = Items "string list" | NoObject

datatype headers_init =
    Nullish
  | Sequence "pair_init list"
  | Record "(string \<times> string) list"
  | IteratorNoFunction
  | Primitive

definition is_NoObject :: "pair_init \<Rightarrow> bool" where
  "is_NoObject p = (case p of NoObject \<Rightarrow> True | Items _ \<Rightarrow> False)"

definition items_of :: "pair_init \<Rightarrow> string list" where
  "items_of p = (case p of Items xs \<Rightarrow> xs | NoObject \<Rightarrow> [])"

text \<open>The two \<^verbatim>\<open>map\<close> passes over the exhausted sequence, one after the other.\<close>

definition sequence_pairs :: "pair_init list \<Rightarrow> error + string list list" where
  "sequence_pairs ps =
     (if list_ex is_NoObject ps then Inl PairNotObject
      else if list_ex (\<lambda>p. length (items_of p) \<noteq> 2) ps then Inl PairNotTuple
      else Inr (map items_of ps))"

text \<open>
  Validate and lowercase, pair by pair, stopping at the first throw. Every pair has two
  items here; the last equation is never reached.
\<close>

fun validate_and_lowercase :: "string list list \<Rightarrow> error + header_list" where
  "validate_and_lowercase [] = Inr []"
| "validate_and_lowercase ([name, v] # rest) =
     (case validateName name of
        Inl e \<Rightarrow> Inl e
      | Inr _ \<Rightarrow>
          (case validateValue v of
             Inl e \<Rightarrow> Inl e
           | Inr _ \<Rightarrow>
               (case validate_and_lowercase rest of
                  Inl e \<Rightarrow> Inl e
                | Inr l \<Rightarrow> Inr ((toLowerCase name, v) # l))))"
| "validate_and_lowercase (_ # rest) = Inl PairNotTuple"

definition Headers_new :: "headers_init \<Rightarrow> error + header_list" where
  "Headers_new init =
     (case init of
        Nullish \<Rightarrow> validate_and_lowercase []
      | Sequence ps \<Rightarrow>
          (case sequence_pairs ps of
             Inl e \<Rightarrow> Inl e
           | Inr result \<Rightarrow> validate_and_lowercase result)
      | Record es \<Rightarrow> validate_and_lowercase (map (\<lambda>(name, v). [name, v]) es)
      | IteratorNoFunction \<Rightarrow> Inl PairsNotIterable
      | Primitive \<Rightarrow> Inl InitNotObject)"

subsection \<open>createHeadersLenient\<close>

text \<open>
  The value of a field of the record is a string or an array of strings;
  \<^verbatim>\<open>RegExp.prototype.test\<close> sees it as \<^verbatim>\<open>String(value)\<close>, an array joined with
  commas.
\<close>

datatype field_value = Single string | Multiple "string list"

definition String_of :: "field_value \<Rightarrow> string" where
  "String_of v = (case v of Single s \<Rightarrow> s | Multiple vs \<Rightarrow> Array_join '','' vs)"

definition lenient_step :: "string list list \<Rightarrow> string \<times> field_value \<Rightarrow> string list list" where
  "lenient_step result e =
     (case e of (name, v) \<Rightarrow>
        if \<not> invalidTokenRegex_test name \<and> \<not> invalidHeaderCharRegex_test (String_of v)
        then (case v of
                Multiple vs \<Rightarrow> result @ map (\<lambda>x. [name, x]) vs
              | Single s \<Rightarrow> result @ [[name, s]])
        else result)"

definition createHeadersLenient :: "(string \<times> field_value) list \<Rightarrow> error + header_list" where
  "createHeadersLenient object =
     Headers_new (Sequence (map Items (foldl lenient_step [] object)))"

section \<open>body.js\<close>

subsection \<open>Buffers, streams and blobs\<close>

type_synonym bytes = "8 word list"

text \<open>\<^verbatim>\<open>Buffer.from(string)\<close> encodes in UTF-8; a Latin-1 unit takes one or two bytes.\<close>

definition utf8_unit :: "char \<Rightarrow> bytes" where
  "utf8_unit c =
     (if unit_of c < 0x80 then [of_nat (unit_of c)]
      else [of_nat (0xC0 + unit_of c div 0x40), of_nat (0x80 + unit_of c mod 0x40)])"

definition Buffer_from_string :: "string \<Rightarrow> bytes" where
  "Buffer_from_string s = concat (map utf8_unit s)"

text \<open>
  What a stream does once it flows: it emits chunks, and it finishes with its end or with
  an error, or it falls silent. A chunk is a buffer (no Node stream in its byte mode emits
  \<^verbatim>\<open>null\<close> as data). Nothing is read after the first \<open>End\<close> or \<open>Error\<close>.
\<close>

datatype event = Data bytes | End | Error stream_error

text \<open>
  The capabilities by which the form-data module's objects are detected, each absent
  (\<open>None\<close>) or a function, given by what it returns.
\<close>

record form_caps =
  getBoundary :: "string option"
  getLengthSync :: "nat option"
  hasKnownLength :: "bool option"

definition no_caps :: form_caps where
  "no_caps = \<lparr>getBoundary = None, getLengthSync = None, hasKnownLength = None\<rparr>"

text \<open>
  A stream is a readable source, or a \<^verbatim>\<open>PassThrough\<close> with its
  \<^verbatim>\<open>highWaterMark\<close> into which a stream has been piped. A source piped into two
  such streams writes every chunk to both and is paused while one of them asks for it:
  what one branch receives depends on how the other is read. The other branch is
  \<open>Read\<close>, taken out as it arrives, or \<open>Unread stalls\<close>, never taken out, where
  \<open>stalls h written\<close> says whether a \<^verbatim>\<open>PassThrough\<close> of the
  \<^verbatim>\<open>highWaterMark\<close> \<open>h\<close> that holds the chunks \<open>written\<close> keeps the source
  paused. That is for the platform to say (its versions differ in how much more than
  \<open>h\<close> bytes such a stream takes in), so it is a parameter.
\<close>

datatype 'h reading = Read | Unread "'h \<Rightarrow> bytes list \<Rightarrow> bool"

datatype 'h stream = Readable form_caps "event list" | PassThrough 'h "'h reading" "'h stream"

text \<open>
  One such policy: the write of a stream returns false once the stream holds
  \<^verbatim>\<open>highWaterMark\<close> bytes or more, and a stream that is not read never drains.
\<close>

definition reaches_highWaterMark :: "nat \<Rightarrow> bytes list \<Rightarrow> bool" where
  "reaches_highWaterMark h written \<longleftrightarrow> h \<le> sum_list (map length written)"

text \<open>
  \<^verbatim>\<open>source.pipe(dest)\<close> writes every chunk to the destination and ends it when
  the source ends; an error of the source is not passed on, and the destination stays
  open. This is the single pipe into a destination that is read.
\<close>

fun pipe :: "event list \<Rightarrow> event list" where
  "pipe [] = []"
| "pipe (Data c # evs) = Data c # pipe evs"
| "pipe (End # evs) = [End]"
| "pipe (Error e # evs) = []"

text \<open>
  \<^verbatim>\<open>body.pipe(p1); body.pipe(p2)\<close>, seen from one branch: each chunk reaches both
  branches, and after a chunk at which the other branch keeps the source paused nothing
  more arrives, the end of the source included.
\<close>

definition paused_for_good :: "'h \<Rightarrow> 'h reading \<Rightarrow> bytes list \<Rightarrow> bool" where
  "paused_for_good h r written =
     (case r of Read \<Rightarrow> False | Unread stalls \<Rightarrow> stalls h written)"

fun tee :: "'h \<Rightarrow> 'h reading \<Rightarrow> bytes list \<Rightarrow> event list \<Rightarrow> event list" where
  "tee h r written [] = []"
| "tee h r written (Data c # evs) =
     Data c # (if paused_for_good h r (written @ [c]) then [] else tee h r (written @ [c]) evs)"
| "tee h r written (End # evs) = [End]"
| "tee h r written (Error e # evs) = []"

fun stream_events :: "'h stream \<Rightarrow> event list" where
  "stream_events (Readable caps evs) = evs"
| "stream_events (PassThrough h r s) = tee h r [] (stream_events s)"

fun stream_caps :: "'h stream \<Rightarrow> form_caps" where
  "stream_caps (Readable caps evs) = caps"
| "stream_caps (PassThrough h r s) = no_caps"

text \<open>
  A blob: its declared type and size, and the stream its \<^verbatim>\<open>stream()\<close> returns.
\<close>

record 'h blob =
  blob_type :: string
  blob_size :: nat
  blob_stream :: "'h stream"

subsection \<open>The Body class\<close>

text \<open>
  The values the constructor and \<^verbatim>\<open>extractContentType\<close> tell apart.
  \<open>JArrayBufferView\<close> carries the bytes of its buffer, its offset and its length;
  \<open>JOther\<close> is any other value, given by its \<^verbatim>\<open>String(body)\<close> and by what
  its \<^verbatim>\<open>getBoundary\<close> returns when it has that function.
\<close>

text \<open>
  Modelled from the spec: \<^verbatim>\<open>isBlob\<close> and \<^verbatim>\<open>isURLSearchParameters\<close> of
  \<^verbatim>\<open>utils/is.js\<close>, which is not among the sources; they are the structural
  detection of a blob and of URL-encoded form parameters, true of \<open>JBlob\<close> and of
  \<open>JURLSearchParams\<close> (given by its \<^verbatim>\<open>toString()\<close>) and of nothing else.
\<close>

datatype 'h js_value =
    JNull
  | JUndefined
  | JString string
  | JURLSearchParams string
  | JBlob "'h blob"
  | JBuffer bytes
  | JArrayBuffer bytes
  | JArrayBufferView bytes nat nat
  | JStream "'h stream"
  | JOther string "string option"

text \<open>The normalised body the instance holds.\<close>

datatype 'h source = Null | Blob "'h blob" | Buffer bytes | Stream "'h stream"

text \<open>
  The instance: the three internals, the two options, and \<^verbatim>\<open>this.headers\<close>, which
  the class itself never sets (a subclass does).
\<close>

record 'h Body =
  body :: "'h source"
  disturbed :: bool
  error :: "error option"
  size_opt :: nat
  timeout :: nat
  headers :: "header_list option"

definition Body_new :: "'h js_value \<Rightarrow> nat \<Rightarrow> nat \<Rightarrow> 'h Body" where
  "Body_new input sz tm =
     \<lparr>body =
        (case input of
           JNull \<Rightarrow> Null
         | JURLSearchParams s \<Rightarrow> Buffer (Buffer_from_string s)
         | JBlob b \<Rightarrow> Blob b
         | JBuffer b \<Rightarrow> Buffer b
         | JArrayBuffer b \<Rightarrow> Buffer b
         | JArrayBufferView b byteOffset byteLength \<Rightarrow> Buffer (take byteLength (drop byteOffset b))
         | JStream s \<Rightarrow> Stream s
         | JUndefined \<Rightarrow> Buffer (Buffer_from_string ''undefined'')
         | JString s \<Rightarrow> Buffer (Buffer_from_string s)
         | JOther s g \<Rightarrow> Buffer (Buffer_from_string s)),
      disturbed = False,
      error = None,
      size_opt = sz,
      timeout = tm,
      headers = None\<rparr>"

text \<open>
  The listener the constructor puts on a stream body: it keeps the error, wrapped
  unless it is an abort. No operation reads \<open>error\<close> once \<open>disturbed\<close> is set, so the
  listener matters before the drain only.
\<close>

definition isAbortError :: "stream_error \<Rightarrow> bool" where
  "isAbortError err = (case err of AbortError _ \<Rightarrow> True | OtherError _ \<Rightarrow> False)"

definition on_error :: "stream_error \<Rightarrow> 'h Body \<Rightarrow> 'h Body" where
  "on_error err data =
     data\<lparr>error := Some (if isAbortError err then Upstream err else BodySystemError err)\<rparr>"

definition bodyUsed :: "'h Body \<Rightarrow> bool" where
  "bodyUsed data = disturbed data"

subsection \<open>consumeBody\<close>

text \<open>
  A promise: settled one way or the other, or never settled. The body of an instance is
  absent, a blob, a buffer or a stream, so the branch of \<^verbatim>\<open>consumeBody\<close> for a
  body that is none of these (marked as one that should never happen) has no
  counterpart here.
\<close>

datatype 'a outcome = Resolved 'a | Rejected error | Pending

text \<open>
  What the surroundings decide: after how many events of the stream an armed timer
  expires, and the largest length \<^verbatim>\<open>Buffer.concat\<close> can allocate.
\<close>

record env =
  timer_after :: nat
  kMaxLength :: nat

record accumulation =
  accum :: "bytes list"
  accumBytes :: nat
  abort :: bool
  settled :: "bytes outcome"

text \<open>\<^verbatim>\<open>resolve\<close> and \<^verbatim>\<open>reject\<close> do nothing to a settled promise.\<close>

definition settle :: "bytes outcome \<Rightarrow> accumulation \<Rightarrow> accumulation" where
  "settle r s = (if settled s = Pending then s\<lparr>settled := r\<rparr> else s)"

definition on_data :: "nat \<Rightarrow> bytes \<Rightarrow> accumulation \<Rightarrow> accumulation" where
  "on_data sz chunk s =
     (if abort s then s
      else if sz \<noteq> 0 \<and> accumBytes s + length chunk > sz
      then settle (Rejected BodyTooLarge) (s\<lparr>abort := True\<rparr>)
      else s\<lparr>accumBytes := accumBytes s + length chunk, accum := accum s @ [chunk]\<rparr>)"

text \<open>
  The timer's callback. It destroys the stream, which then emits nothing more; the
  callback of \<^verbatim>\<open>finished\<close> that follows rejects a promise already rejected.
\<close>

definition on_timeout :: "accumulation \<Rightarrow> accumulation" where
  "on_timeout s = settle (Rejected BodyTimeout) (s\<lparr>abort := True\<rparr>)"

definition on_finished :: "env \<Rightarrow> stream_error option \<Rightarrow> accumulation \<Rightarrow> accumulation" where
  "on_finished e err s =
     (case err of
        Some x \<Rightarrow>
          (if isAbortError x then settle (Rejected (Upstream x)) (s\<lparr>abort := True\<rparr>)
           else settle (Rejected (BodySystemError x)) s)
      | None \<Rightarrow>
          (if abort s then s
           else if accumBytes s > kMaxLength e then settle (Rejected BodyAllocationError) s
           else settle (Resolved (concat (accum s))) s))"

text \<open>
  The events in their order. The timer is \<open>Some k\<close> while it is armed and \<open>k\<close> more
  events come before it expires; with the stream silent for good, an armed timer
  expires. \<^verbatim>\<open>finished\<close> clears the timer, and nothing comes after it.
\<close>

fun run :: "nat \<Rightarrow> env \<Rightarrow> nat option \<Rightarrow> event list \<Rightarrow> accumulation \<Rightarrow> accumulation" where
  "run sz e t [] s = (case t of None \<Rightarrow> s | Some k \<Rightarrow> on_timeout s)"
| "run sz e t (ev # evs) s =
     (if t = Some 0 then on_timeout s
      else
        (case ev of
           Data chunk \<Rightarrow> run sz e (map_option (\<lambda>k. k - 1) t) evs (on_data sz chunk s)
         | End \<Rightarrow> on_finished e None s
         | Error err \<Rightarrow> on_finished e (Some err) s))"

definition consume_stream :: "env \<Rightarrow> 'h Body \<Rightarrow> 'h stream \<Rightarrow> bytes outcome" where
  "consume_stream e data s =
     settled
       (run (size_opt data) e
          (if timeout data \<noteq> 0 then Some (timer_after e) else None)
          (stream_events s)
          \<lparr>accum = [], accumBytes = 0, abort = False, settled = Pending\<rparr>)"

definition consumeBody :: "env \<Rightarrow> 'h Body \<Rightarrow> bytes outcome \<times> 'h Body" where
  "consumeBody e data =
     (if disturbed data then (Rejected BodyAlreadyConsumed, data)
      else
        (let data' = data\<lparr>disturbed := True\<rparr>
         in (case error data' of
               Some err \<Rightarrow> (Rejected err, data')
             | None \<Rightarrow>
                 (case body data' of
                    Null \<Rightarrow> (Resolved [], data')
                  | Blob b \<Rightarrow> (consume_stream e data' (blob_stream b), data')
                  | Buffer b \<Rightarrow> (Resolved b, data')
                  | Stream s \<Rightarrow> (consume_stream e data' s, data')))))"

subsection \<open>The accessors\<close>

text \<open>
  Each accessor awaits \<^verbatim>\<open>consumeBody\<close> and transforms the buffer. Decoding a
  buffer as UTF-8 and \<^verbatim>\<open>JSON.parse\<close> belong to the platform and are parameters;
  \<open>None\<close> is the parser's SyntaxError.
\<close>

datatype accessor = Acc_arrayBuffer | Acc_blob | Acc_json | Acc_text | Acc_buffer

datatype ('t, 'j) decoded =
    ArrayBufferOf bytes
  | BlobOf string bytes
  | JsonOf 'j
  | TextOf 't
  | BufferOf bytes

definition and_then :: "'a outcome \<Rightarrow> ('a \<Rightarrow> 'b outcome) \<Rightarrow> 'b outcome" where
  "and_then p f = (case p of Resolved x \<Rightarrow> f x | Rejected err \<Rightarrow> Rejected err | Pending \<Rightarrow> Pending)"

definition Body_arrayBuffer :: "env \<Rightarrow> 'h Body \<Rightarrow> ('t, 'j) decoded outcome \<times> 'h Body" where
  "Body_arrayBuffer e data =
     (case consumeBody e data of
        (p, data') \<Rightarrow> (and_then p (\<lambda>buf. Resolved (ArrayBufferOf buf)), data'))"

text \<open>
  \<^verbatim>\<open>blob()\<close> works out the type before it drains: the content-type header if there
  is one (and it is not empty), else the type of the body if it has one, else the empty
  string.
\<close>

definition blob_ct :: "'h Body \<Rightarrow> string" where
  "blob_ct data =
     (let from_headers =
            (case headers data of
               None \<Rightarrow> None
             | Some h \<Rightarrow> (case Headers_get ''content-type'' h of Inr (Some v) \<Rightarrow> Some v | _ \<Rightarrow> None));
          from_body = (case body data of Blob b \<Rightarrow> blob_type b | _ \<Rightarrow> [])
      in (case from_headers of
            Some v \<Rightarrow> (if v = [] then from_body else v)
          | None \<Rightarrow> from_body))"

definition Body_blob :: "env \<Rightarrow> 'h Body \<Rightarrow> ('t, 'j) decoded outcome \<times> 'h Body" where
  "Body_blob e data =
     (let ct = blob_ct data
      in (case consumeBody e data of
            (p, data') \<Rightarrow> (and_then p (\<lambda>buf. Resolved (BlobOf (toLowerCase ct) buf)), data')))"

definition Body_json ::
  "(bytes \<Rightarrow> 't) \<Rightarrow> ('t \<Rightarrow> 'j option) \<Rightarrow> env \<Rightarrow> 'h Body \<Rightarrow> ('t, 'j) decoded outcome \<times> 'h Body" where
  "Body_json toString JSON_parse e data =
     (case consumeBody e data of
        (p, data') \<Rightarrow>
          (and_then p
             (\<lambda>buf. case JSON_parse (toString buf) of
                       None \<Rightarrow> Rejected ParseError
                     | Some j \<Rightarrow> Resolved (JsonOf j)),
           data'))"

definition Body_text ::
  "(bytes \<Rightarrow> 't) \<Rightarrow> env \<Rightarrow> 'h Body \<Rightarrow> ('t, 'j) decoded outcome \<times> 'h Body" where
  "Body_text toString e data =
     (case consumeBody e data of
        (p, data') \<Rightarrow> (and_then p (\<lambda>buf. Resolved (TextOf (toString buf))), data'))"

definition Body_buffer :: "env \<Rightarrow> 'h Body \<Rightarrow> ('t, 'j) decoded outcome \<times> 'h Body" where
  "Body_buffer e data =
     (case consumeBody e data of
        (p, data') \<Rightarrow> (and_then p (\<lambda>buf. Resolved (BufferOf buf)), data'))"

definition drain ::
  "accessor \<Rightarrow> (bytes \<Rightarrow> 't) \<Rightarrow> ('t \<Rightarrow> 'j option) \<Rightarrow> env \<Rightarrow> 'h Body
     \<Rightarrow> ('t, 'j) decoded outcome \<times> 'h Body" where
  "drain a toString JSON_parse e data =
     (case a of
        Acc_arrayBuffer \<Rightarrow> Body_arrayBuffer e data
      | Acc_blob \<Rightarrow> Body_blob e data
      | Acc_json \<Rightarrow> Body_json toString JSON_parse e data
      | Acc_text \<Rightarrow> Body_text toString e data
      | Acc_buffer \<Rightarrow> Body_buffer e data)"

subsection \<open>clone, extractContentType, getTotalBytes\<close>

text \<open>
  \<^verbatim>\<open>clone\<close> throws, or returns a body and leaves the instance with its own. The
  body is piped into two \<^verbatim>\<open>PassThrough\<close> streams of the given
  \<^verbatim>\<open>highWaterMark\<close>, which is taken to be one that \<^verbatim>\<open>PassThrough\<close> accepts.
  What the two holders go on to do with their branches is given with the call, since
  the model has no store the branches could share: \<open>fst readers\<close> is how the branch
  of the instance will be read, \<open>snd readers\<close> how the returned one will be, and each
  branch carries the reading of the other.
\<close>

definition clone :: "'h Body \<Rightarrow> 'h \<Rightarrow> 'h reading \<times> 'h reading \<Rightarrow> error + 'h source \<times> 'h Body" where
  "clone instance highWaterMark readers =
     (if bodyUsed instance then Inl CloneAfterConsumption
      else
        (case body instance of
           Stream s \<Rightarrow>
             (if getBoundary (stream_caps s) = None
              then
                (let p1 = PassThrough highWaterMark (snd readers) s;
                     p2 = PassThrough highWaterMark (fst readers) s
                 in Inr (Stream p2, instance\<lparr>body := Stream p1\<rparr>))
              else Inr (Stream s, instance))
         | b \<Rightarrow> Inr (b, instance)))"

text \<open>The result \<open>None\<close> is \<^verbatim>\<open>null\<close>. The cases stand in the order of the tests.\<close>

definition extractContentType :: "'h js_value \<Rightarrow> string option" where
  "extractContentType input =
     (case input of
        JNull \<Rightarrow> None
      | JString s \<Rightarrow> Some ''text/plain;charset=UTF-8''
      | JURLSearchParams s \<Rightarrow> Some ''application/x-www-form-urlencoded;charset=UTF-8''
      | JBlob b \<Rightarrow> (if blob_type b = [] then None else Some (blob_type b))
      | JBuffer b \<Rightarrow> None
      | JArrayBuffer b \<Rightarrow> None
      | JArrayBufferView b byteOffset byteLength \<Rightarrow> None
      | JStream s \<Rightarrow>
          (case getBoundary (stream_caps s) of
             Some boundary \<Rightarrow> Some (''multipart/form-data;boundary='' @ boundary)
           | None \<Rightarrow> None)
      | JOther s g \<Rightarrow>
          (case g of
             Some boundary \<Rightarrow> Some (''multipart/form-data;boundary='' @ boundary)
           | None \<Rightarrow> Some ''text/plain;charset=UTF-8'')
      | JUndefined \<Rightarrow> Some ''text/plain;charset=UTF-8'')"

definition getTotalBytes :: "'h Body \<Rightarrow> nat option" where
  "getTotalBytes data =
     (case body data of
        Null \<Rightarrow> Some 0
      | Blob b \<Rightarrow> Some (blob_size b)
      | Buffer b \<Rightarrow> Some (length b)
      | Stream s \<Rightarrow>
          (case getLengthSync (stream_caps s) of
             Some n \<Rightarrow> (if hasKnownLength (stream_caps s) = Some True then Some n else None)
           | None \<Rightarrow> None))"

section \<open>The grammar of the specification\<close>

text \<open>
  Modelled from the spec: the two grammars of its data model, to be compared with the
  regular expressions of the code. A name is a token, not empty and made of visible ASCII
  (\<open>0x21 .. 0x7E\<close>) without the separators \<^verbatim>\<open>( ) < > @ , ; : \ " / [ ] ? = { }\<close>;
  a value is made of the tab, of ASCII from the space to \<open>0x7E\<close>, and of the Latin-1
  supplement \<open>0x80 .. 0xFF\<close>.
\<close>

definition separator_unit :: "char \<Rightarrow> bool" where
  "separator_unit c \<longleftrightarrow>
     unit_of c = 0x28 \<or> unit_of c = 0x29 \<or> unit_of c = 0x3C \<or> unit_of c = 0x3E
     \<or> unit_of c = 0x40 \<or> unit_of c = 0x2C \<or> unit_of c = 0x3B \<or> unit_of c = 0x3A
     \<or> unit_of c = 0x5C \<or> unit_of c = 0x22 \<or> unit_of c = 0x2F \<or> unit_of c = 0x5B
     \<or> unit_of c = 0x5D \<or> unit_of c = 0x3F \<or> unit_of c = 0x3D \<or> unit_of c = 0x7B
     \<or> unit_of c = 0x7D"

definition http_token_unit :: "char \<Rightarrow> bool" where
  "http_token_unit c \<longleftrightarrow> 0x21 \<le> unit_of c \<and> unit_of c \<le> 0x7E \<and> \<not> separator_unit c"

definition http_token :: "string \<Rightarrow> bool" where
  "http_token name \<longleftrightarrow> name \<noteq> [] \<and> list_all http_token_unit name"

definition http_field_value :: "string \<Rightarrow> bool" where
  "http_field_value v \<longleftrightarrow>
     list_all (\<lambda>c. unit_of c = 0x09 \<or> (0x20 \<le> unit_of c \<and> unit_of c \<le> 0x7E)
                  \<or> (0x80 \<le> unit_of c \<and> unit_of c \<le> 0xFF)) v"

section \<open>Auxiliary predicates\<close>

text \<open>
  Two notions the proofs need. A pattern unit is a small ASCII letter or the hyphen, the
  units of the pattern \<^verbatim>\<open>content-encoding\<close>. A legal pair is a name and a value
  that pass \<open>validateName\<close> and \<open>validateValue\<close>.
\<close>

definition pattern_unit :: "char \<Rightarrow> bool" where
  "pattern_unit p \<longleftrightarrow> (0x61 \<le> unit_of p \<and> unit_of p \<le> 0x7A) \<or> unit_of p = 0x2D"

definition legal_pair :: "string list \<Rightarrow> bool" where
  "legal_pair p \<longleftrightarrow>
     (case p of
        [name, v] \<Rightarrow> \<not> invalidTokenRegex_test name \<and> name \<noteq> [] \<and> \<not> invalidHeaderCharRegex_test v
      | _ \<Rightarrow> False)"

section \<open>Properties of the header list\<close>

lemma Set_add_set: "set (Set_add acc x) = insert x (set acc)"
  by (auto simp: Set_add_def)

lemma Set_add_distinct: "distinct acc \<Longrightarrow> distinct (Set_add acc x)"
  by (auto simp: Set_add_def)

lemma foldl_Set_add_set: "set (foldl Set_add acc xs) = set acc \<union> set xs"
  by (induction xs arbitrary: acc) (auto simp: Set_add_set)

lemma foldl_Set_add_distinct: "distinct acc \<Longrightarrow> distinct (foldl Set_add acc xs)"
  by (induction xs arbitrary: acc) (auto simp: Set_add_distinct)

lemma foldl_Set_add_sorted:
  "sorted (acc @ xs) \<Longrightarrow> sorted (foldl Set_add acc xs)"
proof (induction xs arbitrary: acc)
  case Nil
  then show ?case by simp
next
  case (Cons x xs)
  show ?case
  proof (cases "x \<in> set acc")
    case True
    from Cons.prems have "sorted (acc @ xs)"
      by (auto simp: sorted_append)
    with True Cons.IH show ?thesis
      by (simp add: Set_add_def)
  next
    case False
    from Cons.prems have "sorted ((acc @ [x]) @ xs)"
      by simp
    with False Cons.IH show ?thesis
      by (simp add: Set_add_def)
  qed
qed

lemma Set_keys_set: "set (Set_keys xs) = set xs"
  by (simp add: Set_keys_def foldl_Set_add_set)

lemma Set_keys_distinct: "distinct (Set_keys xs)"
  by (simp add: Set_keys_def foldl_Set_add_distinct)

lemma Set_keys_sorted: "sorted xs \<Longrightarrow> sorted (Set_keys xs)"
  by (simp add: Set_keys_def foldl_Set_add_sorted)

lemma USP_sort_idem: "USP_sort (USP_sort h) = USP_sort h"
  by (simp add: USP_sort_def sort_key_id_if_sorted)

lemma USP_keys_sorted: "sorted (USP_keys (USP_sort h))"
  by (simp add: USP_keys_def USP_sort_def)

lemma USP_keys_set: "set (USP_keys (USP_sort h)) = fst ` set h"
  by (simp add: USP_keys_def USP_sort_def)

text \<open>
  C5. For every header list, \<open>keys()\<close> returns the sorted, duplicate-free sequence of
  the stored names, and a second call on the state the first one left returns the same
  sequence; a list with the stored names \<open>b, a, a\<close> yields \<open>a, b\<close> on each call.
\<close>

theorem keys_sorted_distinct_stable:
  "sorted (fst (Headers_keys h))
   \<and> distinct (fst (Headers_keys h))
   \<and> set (fst (Headers_keys h)) = fst ` set h
   \<and> fst (Headers_keys (snd (Headers_keys h))) = fst (Headers_keys h)
   \<and> fst (Headers_keys [(''b'', v1), (''a'', v2), (''a'', v3)]) = [''a'', ''b'']
   \<and> fst (Headers_keys (snd (Headers_keys [(''b'', v1), (''a'', v2), (''a'', v3)])))
       = [''a'', ''b'']"
proof -
  have ex: "Headers_keys [(''b'', v1), (''a'', v2), (''a'', v3)]
            = ([''a'', ''b''], [(''a'', v2), (''a'', v3), (''b'', v1)])"
    by (simp add: Headers_keys_def USP_sort_def USP_keys_def Set_keys_def Set_add_def)
  have ex2: "fst (Headers_keys [(''a'', v2), (''a'', v3), (''b'', v1)]) = [''a'', ''b'']"
    by (simp add: Headers_keys_def USP_sort_def USP_keys_def Set_keys_def Set_add_def)
  show ?thesis
    by (simp add: ex ex2)
      (simp add: Headers_keys_def Let_def Set_keys_sorted Set_keys_distinct Set_keys_set
        USP_keys_sorted USP_keys_set USP_sort_idem)
qed

subsection \<open>Letter case\<close>

lemma unit_of_less: "unit_of c < 256"
  by (simp add: unit_of_def)

lemma unit_of_char_of: "unit_of (char_of (n::nat)) = n mod 256"
  by (simp add: unit_of_def)

lemma char_eq_unit: "(c = d) = (unit_of c = unit_of d)"
  by (simp add: unit_of_def)

lemma unit_of_toLowerCase:
  "unit_of (toLowerCase_unit c) =
     (if (0x41 \<le> unit_of c \<and> unit_of c \<le> 0x5A)
         \<or> (0xC0 \<le> unit_of c \<and> unit_of c \<le> 0xDE \<and> unit_of c \<noteq> 0xD7)
      then unit_of c + 0x20 else unit_of c)"
  using unit_of_less [of c] by (simp add: toLowerCase_unit_def unit_of_char_of)

lemma unit_of_Canonicalize:
  "unit_of (Canonicalize c) =
     (if (0x61 \<le> unit_of c \<and> unit_of c \<le> 0x7A)
         \<or> (0xE0 \<le> unit_of c \<and> unit_of c \<le> 0xFE \<and> unit_of c \<noteq> 0xF7)
      then unit_of c - 0x20 else unit_of c)"
  using unit_of_less [of c] by (simp add: Canonicalize_def unit_of_char_of)

lemma token_unit_toLowerCase: "token_unit (toLowerCase_unit c) = token_unit c"
  unfolding token_unit_def word_unit_def unit_of_toLowerCase by (simp; arith)

lemma Canonicalize_pattern:
  "(0x61 \<le> unit_of p \<and> unit_of p \<le> 0x7A) \<or> unit_of p = 0x2D
   \<Longrightarrow> (Canonicalize c = Canonicalize p) = (toLowerCase_unit c = p)"
  unfolding char_eq_unit [of "Canonicalize c"] char_eq_unit [of "toLowerCase_unit c"]
    unit_of_toLowerCase unit_of_Canonicalize
  by (simp; arith)

lemma Canonicalize_map:
  "list_all pattern_unit ps
   \<Longrightarrow> (map Canonicalize cs = map Canonicalize ps) = (map toLowerCase_unit cs = ps)"
proof (induction cs arbitrary: ps)
  case Nil
  then show ?case by auto
next
  case (Cons c cs)
  then show ?case
    by (cases ps) (auto simp: pattern_unit_def Canonicalize_pattern)
qed

lemma content_encoding_test_iff:
  "content_encoding_test name \<longleftrightarrow> toLowerCase name = ''content-encoding''"
  unfolding content_encoding_test_def toLowerCase_def
  by (rule Canonicalize_map) (simp add: pattern_unit_def unit_of_def)

lemma invalidTokenRegex_toLowerCase:
  "invalidTokenRegex_test (toLowerCase s) = invalidTokenRegex_test s"
  by (induction s) (simp_all add: invalidTokenRegex_test_def toLowerCase_def token_unit_toLowerCase)

lemma toLowerCase_Nil: "(toLowerCase s = []) = (s = [])"
  by (simp add: toLowerCase_def)

lemma validateName_toLowerCase:
  "toLowerCase name' = toLowerCase name \<Longrightarrow> validateName name = Inr ()
   \<Longrightarrow> validateName name' = Inr ()"
proof -
  assume eq: "toLowerCase name' = toLowerCase name" and ok: "validateName name = Inr ()"
  from ok have "\<not> invalidTokenRegex_test name" and "name \<noteq> []"
    by (auto simp: validateName_def split: if_splits)
  then have "\<not> invalidTokenRegex_test (toLowerCase name')" and "toLowerCase name' \<noteq> []"
    by (simp_all add: eq invalidTokenRegex_toLowerCase toLowerCase_Nil)
  then show ?thesis
    by (simp add: validateName_def invalidTokenRegex_toLowerCase toLowerCase_Nil)
qed

lemma Array_join_snoc:
  "Array_join sep (xs @ [v]) = (if xs = [] then v else Array_join sep xs @ sep @ v)"
  by (induction sep xs rule: Array_join.induct) simp_all

lemma USP_getAll_append:
  "USP_getAll n (USP_append m v h) = (if m = n then USP_getAll n h @ [v] else USP_getAll n h)"
  by (simp add: USP_getAll_def USP_append_def)

lemma USP_getAll_Nil: "(USP_getAll n h = []) = (n \<notin> fst ` set h)"
  by (auto simp: USP_getAll_def filter_empty_conv)

lemma validateName_content_encoding:
  "toLowerCase name = ''content-encoding'' \<Longrightarrow> validateName name = Inr ()"
proof -
  assume eq: "toLowerCase name = ''content-encoding''"
  have ok: "validateName ''content-encoding'' = Inr ()"
    by code_simp
  have "toLowerCase ''content-encoding'' = ''content-encoding''"
    by code_simp
  with eq have "toLowerCase name = toLowerCase ''content-encoding''"
    by simp
  then show ?thesis
    using ok by (rule validateName_toLowerCase)
qed

text \<open>
  C6. For every header list and every name, the test of \<open>get\<close> for
  \<^verbatim>\<open>content-encoding\<close> holds exactly when the lowercased name is
  \<^verbatim>\<open>content-encoding\<close>. For such a name \<open>get\<close> never throws and returns the
  values stored under \<^verbatim>\<open>content-encoding\<close>, joined and then lowercased, a stored
  \<^verbatim>\<open>GZIP\<close> coming back as \<^verbatim>\<open>gzip\<close>; for every other name it returns the joined
  values as they are stored.
\<close>

theorem get_content_encoding_lowercased:
  "(content_encoding_test name \<longleftrightarrow> toLowerCase name = ''content-encoding'')
   \<and> Headers_get name h =
       (if toLowerCase name = ''content-encoding''
        then (if USP_getAll ''content-encoding'' h = [] then Inr None
              else Inr (Some (toLowerCase (Array_join '', '' (USP_getAll ''content-encoding'' h)))))
        else (case Headers_getAll name h of
                Inl e \<Rightarrow> Inl e
              | Inr vs \<Rightarrow> (if vs = [] then Inr None else Inr (Some (Array_join '', '' vs)))))
   \<and> Headers_get ''content-encoding'' [(''content-encoding'', ''GZIP'')] = Inr (Some ''gzip'')
   \<and> Headers_get ''Content-Encoding'' [(''content-encoding'', ''GZIP'')] = Inr (Some ''gzip'')
   \<and> Headers_get ''x-encoding'' [(''x-encoding'', ''GZIP'')] = Inr (Some ''GZIP'')"
proof -
  have 1: "Headers_get ''content-encoding'' [(''content-encoding'', ''GZIP'')] = Inr (Some ''gzip'')"
    by code_simp
  have 2: "Headers_get ''Content-Encoding'' [(''content-encoding'', ''GZIP'')] = Inr (Some ''gzip'')"
    by code_simp
  have 3: "Headers_get ''x-encoding'' [(''x-encoding'', ''GZIP'')] = Inr (Some ''GZIP'')"
    by code_simp
  have 4: "Headers_get name h =
       (if toLowerCase name = ''content-encoding''
        then (if USP_getAll ''content-encoding'' h = [] then Inr None
              else Inr (Some (toLowerCase (Array_join '', '' (USP_getAll ''content-encoding'' h)))))
        else (case Headers_getAll name h of
                Inl e \<Rightarrow> Inl e
              | Inr vs \<Rightarrow> (if vs = [] then Inr None else Inr (Some (Array_join '', '' vs)))))"
  proof (cases "toLowerCase name = ''content-encoding''")
    case True
    then show ?thesis
      by (simp add: Headers_get_def Headers_getAll_def validateName_content_encoding
          content_encoding_test_iff Let_def)
  next
    case False
    then show ?thesis
      by (simp add: Headers_get_def content_encoding_test_iff Let_def split: sum.splits)
  qed
  from 1 2 3 4 content_encoding_test_iff show ?thesis
    by blast
qed

lemma token_unit_http:
  "token_unit c \<longleftrightarrow> http_token_unit c \<and> unit_of c \<noteq> 0x5E"
  unfolding token_unit_def word_unit_def http_token_unit_def separator_unit_def
  by arith

lemma unit_of_caret: "unit_of c = 0x5E \<longleftrightarrow> c = CHR ''^''"
  unfolding char_eq_unit [of c] by (simp add: unit_of_def)

lemma invalidTokenRegex_http:
  "\<not> invalidTokenRegex_test name \<longleftrightarrow> list_all http_token_unit name \<and> CHR ''^'' \<notin> set name"
  by (induction name) (auto simp: invalidTokenRegex_test_def token_unit_http unit_of_caret)

lemma validateName_http:
  "validateName name = Inr () \<longleftrightarrow> http_token name \<and> CHR ''^'' \<notin> set name"
  using invalidTokenRegex_http [of name] by (auto simp: validateName_def http_token_def)

lemma validateValue_http: "validateValue v = Inr () \<longleftrightarrow> http_field_value v"
  by (induction v)
    (auto simp: validateValue_def http_field_value_def invalidHeaderCharRegex_test_def
      header_unit_def)

text \<open>
  The caret is a unit of a token, and the class of \<^verbatim>\<open>invalidTokenRegex\<close> leaves it
  out: the code takes exactly the tokens without a caret, and exactly the values of the
  grammar. A name with a caret is rejected.
\<close>

lemma caret_is_token:
  "http_token ''a^b'' \<and> http_field_value ''1''
   \<and> Headers_append ''a^b'' ''1'' [] = Inl (InvalidHeaderName ''a^b'')"
  by code_simp

lemma sublist_Array_join_snoc: "sublist v (Array_join sep (xs @ [v]))"
  by (simp add: Array_join_snoc sublist_append)

lemma toLowerCase_append: "toLowerCase (xs @ ys) = toLowerCase xs @ toLowerCase ys"
  by (simp add: toLowerCase_def)

lemma sublist_toLowerCase: "sublist xs ys \<Longrightarrow> sublist (toLowerCase xs) (toLowerCase ys)"
  unfolding sublist_def toLowerCase_def by (metis map_append)

lemma Headers_get_valid:
  "validateName name = Inr ()
   \<Longrightarrow> Headers_get name h =
       (if USP_getAll (toLowerCase name) h = [] then Inr None
        else Inr (Some (if content_encoding_test name
                        then toLowerCase (Array_join '', '' (USP_getAll (toLowerCase name) h))
                        else Array_join '', '' (USP_getAll (toLowerCase name) h))))"
  by (simp add: Headers_get_def Headers_getAll_def Let_def)

text \<open>
  C4, as amended. For a name and a value of the specification's grammar, the name
  without the caret and read back in any letter case, \<open>append\<close> succeeds and
  \<open>get\<close> after it returns the values stored under the name, the
  appended one last, joined with a comma and a space, and lowercased as a whole when the
  name is \<^verbatim>\<open>content-encoding\<close> in some letter case: the result contains the appended
  value, or its lowercased form for \<^verbatim>\<open>content-encoding\<close>. Appending \<open>v\<close> and
  then \<open>v2\<close> under a name that has no entry makes \<open>getAll\<close> the two values in that
  order and \<open>get\<close> their join (lowercased for \<^verbatim>\<open>content-encoding\<close>). \<open>get\<close>
  returns \<^verbatim>\<open>null\<close> exactly when no entry is stored under the name.
\<close>

theorem append_then_get:
  assumes "http_token name" and "CHR ''^'' \<notin> set name" and "http_field_value v"
    and "toLowerCase name' = toLowerCase name"
  shows "Headers_append name v h = Inr (USP_append (toLowerCase name) v h)
    \<and> Headers_getAll name' (USP_append (toLowerCase name) v h)
        = Inr (USP_getAll (toLowerCase name) h @ [v])
    \<and> Headers_get name' (USP_append (toLowerCase name) v h)
        = Inr (Some (if content_encoding_test name'
                     then toLowerCase (Array_join '', '' (USP_getAll (toLowerCase name) h @ [v]))
                     else Array_join '', '' (USP_getAll (toLowerCase name) h @ [v])))
    \<and> sublist v (Array_join '', '' (USP_getAll (toLowerCase name) h @ [v]))
    \<and> sublist (toLowerCase v)
         (toLowerCase (Array_join '', '' (USP_getAll (toLowerCase name) h @ [v])))
    \<and> (http_field_value v2 \<longrightarrow> USP_getAll (toLowerCase name) h = []
         \<longrightarrow> Headers_append name v2 (USP_append (toLowerCase name) v h)
               = Inr (USP_append (toLowerCase name) v2 (USP_append (toLowerCase name) v h))
             \<and> Headers_getAll name'
                 (USP_append (toLowerCase name) v2 (USP_append (toLowerCase name) v h))
               = Inr [v, v2]
             \<and> Headers_get name'
                 (USP_append (toLowerCase name) v2 (USP_append (toLowerCase name) v h))
               = Inr (Some (if content_encoding_test name' then toLowerCase (v @ '', '' @ v2)
                            else v @ '', '' @ v2)))
    \<and> (Headers_get name' h = Inr None \<longleftrightarrow> toLowerCase name \<notin> fst ` set h)"
proof -
  have ok: "validateName name = Inr ()"
    using assms(1,2) by (simp add: validateName_http)
  have okv: "validateValue v = Inr ()"
    using assms(3) by (simp add: validateValue_http)
  have ok': "validateName name' = Inr ()"
    using assms(4) ok by (rule validateName_toLowerCase)
  have a: "Headers_append name v h = Inr (USP_append (toLowerCase name) v h)"
    by (simp add: Headers_append_def ok okv)
  have b: "Headers_getAll name' (USP_append (toLowerCase name) v h)
        = Inr (USP_getAll (toLowerCase name) h @ [v])"
    by (simp add: Headers_getAll_def ok' assms(4) USP_getAll_append)
  have c: "Headers_get name' (USP_append (toLowerCase name) v h)
        = Inr (Some (if content_encoding_test name'
                     then toLowerCase (Array_join '', '' (USP_getAll (toLowerCase name) h @ [v]))
                     else Array_join '', '' (USP_getAll (toLowerCase name) h @ [v])))"
    by (simp add: Headers_get_valid [OF ok'] assms(4) USP_getAll_append)
  have d: "sublist v (Array_join '', '' (USP_getAll (toLowerCase name) h @ [v]))"
    by (rule sublist_Array_join_snoc)
  have e: "sublist (toLowerCase v)
         (toLowerCase (Array_join '', '' (USP_getAll (toLowerCase name) h @ [v])))"
    by (rule sublist_toLowerCase [OF d])
  have f: "Headers_append name v2 (USP_append (toLowerCase name) v h)
               = Inr (USP_append (toLowerCase name) v2 (USP_append (toLowerCase name) v h))
             \<and> Headers_getAll name'
                 (USP_append (toLowerCase name) v2 (USP_append (toLowerCase name) v h))
               = Inr [v, v2]
             \<and> Headers_get name'
                 (USP_append (toLowerCase name) v2 (USP_append (toLowerCase name) v h))
               = Inr (Some (if content_encoding_test name' then toLowerCase (v @ '', '' @ v2)
                            else v @ '', '' @ v2))"
    if v2: "http_field_value v2" and none: "USP_getAll (toLowerCase name) h = []"
  proof -
    have okv2: "validateValue v2 = Inr ()"
      using v2 by (simp add: validateValue_http)
    show ?thesis
      by (simp add: Headers_append_def Headers_getAll_def Headers_get_valid [OF ok'] ok ok'
          okv2 none assms(4) USP_getAll_append)
  qed
  have g: "Headers_get name' h = Inr None \<longleftrightarrow> toLowerCase name \<notin> fst ` set h"
    by (simp add: Headers_get_valid [OF ok'] assms(4) USP_getAll_Nil)
  from a b c d e f g show ?thesis
    by blast
qed

text \<open>
  The amended C4 at \<^verbatim>\<open>X-Foo\<close>, read back as \<^verbatim>\<open>x-foo\<close>.
\<close>

theorem append_then_get_witness:
  "Headers_append ''X-Foo'' ''1'' [] = Inr [(''x-foo'', ''1'')]
   \<and> Headers_get ''x-foo'' [(''x-foo'', ''1'')] = Inr (Some ''1'')
   \<and> Headers_append ''X-Foo'' ''2'' [(''x-foo'', ''1'')] = Inr [(''x-foo'', ''1''), (''x-foo'', ''2'')]
   \<and> Headers_getAll ''x-foo'' [(''x-foo'', ''1''), (''x-foo'', ''2'')] = Inr [''1'', ''2'']
   \<and> Headers_get ''x-foo'' [(''x-foo'', ''1''), (''x-foo'', ''2'')] = Inr (Some ''1, 2'')
   \<and> Headers_get ''x-foo'' [] = Inr None"
proof -
  have 1: "http_token ''X-Foo''" by code_simp
  have 2: "CHR ''^'' \<notin> set ''X-Foo''" by simp
  have 3: "http_field_value ''1''" by code_simp
  have 4: "toLowerCase ''x-foo'' = toLowerCase ''X-Foo''" by code_simp
  have 5: "http_field_value ''2''" by code_simp
  have 6: "\<not> content_encoding_test ''x-foo''" by code_simp
  have 7: "toLowerCase ''X-Foo'' = ''x-foo''" by code_simp
  from append_then_get [OF 1 2 3 4, where h = "[]" and ?v2.0 = "''2''"] 5 6 7 show ?thesis
    by (simp add: USP_append_def USP_getAll_def)
qed

text \<open>
  C4 as it is written fails at \<^verbatim>\<open>Content-Encoding\<close> with the value
  \<^verbatim>\<open>GZIP\<close>: the string \<open>get\<close> returns does not contain the appended value.
\<close>

theorem append_then_get_content_encoding:
  "http_token ''Content-Encoding''
   \<and> http_field_value ''GZIP''
   \<and> validateName ''Content-Encoding'' = Inr ()
   \<and> validateValue ''GZIP'' = Inr ()
   \<and> Headers_append ''Content-Encoding'' ''GZIP'' [] = Inr [(''content-encoding'', ''GZIP'')]
   \<and> Headers_get ''content-encoding'' [(''content-encoding'', ''GZIP'')] = Inr (Some ''gzip'')
   \<and> \<not> sublist ''GZIP'' ''gzip''"
  by code_simp

subsection \<open>The lenient factory\<close>

lemma invalidHeaderCharRegex_append:
  "invalidHeaderCharRegex_test (xs @ ys)
   = (invalidHeaderCharRegex_test xs \<or> invalidHeaderCharRegex_test ys)"
  by (simp add: invalidHeaderCharRegex_test_def)

lemma invalidHeaderCharRegex_join:
  "\<not> invalidHeaderCharRegex_test (Array_join sep vs) \<Longrightarrow> v \<in> set vs
   \<Longrightarrow> \<not> invalidHeaderCharRegex_test v"
  by (induction sep vs rule: Array_join.induct) (auto simp: invalidHeaderCharRegex_append)

lemma lenient_step_legal:
  "list_all legal_pair acc \<Longrightarrow> fst e \<noteq> [] \<Longrightarrow> list_all legal_pair (lenient_step acc e)"
  by (cases e)
    (auto simp: lenient_step_def legal_pair_def String_of_def list_all_iff
      dest: invalidHeaderCharRegex_join split: field_value.splits)

lemma foldl_lenient_step_legal:
  "list_all legal_pair acc \<Longrightarrow> list_all (\<lambda>e. fst e \<noteq> []) object
   \<Longrightarrow> list_all legal_pair (foldl lenient_step acc object)"
  by (induction object arbitrary: acc) (simp_all add: lenient_step_legal)

lemma validate_and_lowercase_legal:
  "list_all legal_pair ps
   \<Longrightarrow> validate_and_lowercase ps = Inr (map (\<lambda>p. (toLowerCase (p ! 0), p ! 1)) ps)"
proof (induction ps)
  case Nil
  then show ?case by simp
next
  case (Cons p ps)
  from Cons.prems obtain name v where p: "p = [name, v]"
    and ok: "\<not> invalidTokenRegex_test name" "name \<noteq> []" "\<not> invalidHeaderCharRegex_test v"
    by (auto simp: legal_pair_def split: list.splits)
  with Cons show ?case
    by (simp add: validateName_def validateValue_def)
qed

lemma sequence_pairs_legal:
  "list_all legal_pair ps \<Longrightarrow> sequence_pairs (map Items ps) = Inr ps"
  by (induction ps)
    (auto simp: sequence_pairs_def is_NoObject_def items_of_def legal_pair_def comp_def
      split: list.splits if_splits)

lemma createHeadersLenient_nonempty_names:
  "list_all (\<lambda>e. fst e \<noteq> []) object
   \<Longrightarrow> createHeadersLenient object
       = Inr (map (\<lambda>p. (toLowerCase (p ! 0), p ! 1)) (foldl lenient_step [] object))"
proof -
  assume "list_all (\<lambda>e. fst e \<noteq> []) object"
  then have "list_all legal_pair (foldl lenient_step [] object)"
    by (intro foldl_lenient_step_legal) simp_all
  then show ?thesis
    by (simp add: createHeadersLenient_def Headers_new_def sequence_pairs_legal
        validate_and_lowercase_legal)
qed

text \<open>
  C3. The lenient factory filters with the two regular expressions only, and the
  constructor it calls then validates each pair once more, the empty name included: on
  a record with the empty string as a name the construction throws. A name with a space
  makes the strict constructor throw and is left out by the lenient one.
\<close>

theorem createHeadersLenient_empty_name:
  "createHeadersLenient [('''', Single ''x'')] = Inl (InvalidHeaderName '''')
   \<and> Headers_new (Sequence [Items [''a b'', ''x'']]) = Inl (InvalidHeaderName ''a b'')
   \<and> createHeadersLenient [(''a b'', Single ''x'')] = Inr []
   \<and> createHeadersLenient [(''a b'', Single ''x''), (''Accept'', Multiple [''a'', ''b''])]
       = Inr [(''accept'', ''a''), (''accept'', ''b'')]"
  by code_simp

section \<open>Properties of the body\<close>

lemma consumeBody_disturbed: "disturbed (snd (consumeBody e data))"
  by (simp add: consumeBody_def Let_def split: option.splits source.splits)

lemma consumeBody_again:
  "disturbed data \<Longrightarrow> consumeBody e data = (Rejected BodyAlreadyConsumed, data)"
  by (simp add: consumeBody_def)

lemma consumeBody_body: "body (snd (consumeBody e data)) = body data"
  by (simp add: consumeBody_def Let_def split: option.splits source.splits)

lemma drain_snd: "snd (drain a ts jp e data) = snd (consumeBody e data)"
  by (cases a)
    (simp_all add: drain_def Body_arrayBuffer_def Body_blob_def Body_json_def Body_text_def
      Body_buffer_def Let_def split: prod.splits)

lemma drain_again:
  "disturbed data \<Longrightarrow> drain a ts jp e data = (Rejected BodyAlreadyConsumed, data)"
  by (cases a)
    (simp_all add: drain_def Body_arrayBuffer_def Body_blob_def Body_json_def Body_text_def
      Body_buffer_def Let_def consumeBody_again and_then_def)

text \<open>
  C1. A new body is not used. After a call of any accessor, whatever it settles to,
  \<open>bodyUsed\<close> is true and the body is the one it was; every accessor called after that
  is rejected with \<open>BodyAlreadyConsumed\<close>, whatever the surroundings, and leaves the
  instance as it is. On a body made from \<^verbatim>\<open>null\<close>, \<open>text()\<close> resolves and
  \<open>arrayBuffer()\<close> after it is rejected.
\<close>

theorem drain_once:
  "\<not> bodyUsed (Body_new input sz tm)
   \<and> bodyUsed (snd (drain a ts jp e data))
   \<and> body (snd (drain a ts jp e data)) = body data
   \<and> drain b ts' jp' e' (snd (drain a ts jp e data))
       = (Rejected BodyAlreadyConsumed, snd (drain a ts jp e data))
   \<and> fst (drain Acc_text ts jp e (Body_new JNull sz tm)) = Resolved (TextOf (ts []))
   \<and> fst (drain Acc_arrayBuffer ts jp e (snd (drain Acc_text ts jp e (Body_new JNull sz tm))))
       = Rejected BodyAlreadyConsumed"
proof -
  have "fst (drain Acc_text ts jp e (Body_new JNull sz tm)) = Resolved (TextOf (ts []))"
    by (simp add: drain_def Body_text_def consumeBody_def Body_new_def and_then_def)
  then show ?thesis
    by (simp add: bodyUsed_def Body_new_def drain_snd consumeBody_disturbed consumeBody_body
        drain_again)
qed

text \<open>
  C8. \<open>getTotalBytes\<close> is 0 for no body, the declared size for a blob (10 for a blob
  of 10 bytes), the length for a buffer; for a stream with \<^verbatim>\<open>getLengthSync\<close> it is
  that length when \<^verbatim>\<open>hasKnownLength\<close> exists and returns true and \<^verbatim>\<open>null\<close>
  otherwise; for any other stream it is \<^verbatim>\<open>null\<close>.
\<close>

theorem getTotalBytes_cases:
  "getTotalBytes (Body_new JNull sz tm) = Some 0
   \<and> getTotalBytes (data\<lparr>body := Null\<rparr>) = Some 0
   \<and> getTotalBytes (data\<lparr>body := Blob b\<rparr>) = Some (blob_size b)
   \<and> getTotalBytes (data\<lparr>body := Blob (b\<lparr>blob_size := 10\<rparr>)\<rparr>) = Some 10
   \<and> getTotalBytes (data\<lparr>body := Buffer buf\<rparr>) = Some (length buf)
   \<and> getTotalBytes (data\<lparr>body := Stream s\<rparr>)
       = (if getLengthSync (stream_caps s) \<noteq> None \<and> hasKnownLength (stream_caps s) = Some True
          then getLengthSync (stream_caps s) else None)
   \<and> getTotalBytes (data\<lparr>body := Stream (Readable no_caps evs)\<rparr>) = None
   \<and> getTotalBytes (data\<lparr>body := Stream (PassThrough h r s)\<rparr>) = None"
  by (auto simp: getTotalBytes_def Body_new_def no_caps_def split: option.splits)

lemma settle_settled: "settled s \<noteq> Pending \<Longrightarrow> settle r s = s"
  by (simp add: settle_def)

lemma on_data_settled:
  "settled s \<noteq> Pending \<Longrightarrow> settled (on_data sz chunk s) = settled s"
  by (simp add: on_data_def settle_def)

lemma on_timeout_settled: "settled s \<noteq> Pending \<Longrightarrow> settled (on_timeout s) = settled s"
  by (simp add: on_timeout_def settle_def)

lemma on_finished_settled:
  "settled s \<noteq> Pending \<Longrightarrow> settled (on_finished e err s) = settled s"
  by (simp add: on_finished_def settle_def split: option.splits)

lemma run_settled:
  "settled s \<noteq> Pending \<Longrightarrow> settled (run sz e t evs s) = settled s"
proof (induction evs arbitrary: t s)
  case Nil
  then show ?case
    by (simp add: on_timeout_settled split: option.splits)
next
  case (Cons ev evs)
  then show ?case
    by (cases ev) (simp_all add: on_data_settled on_timeout_settled on_finished_settled)
qed

lemma run_too_large:
  "sz \<noteq> 0 \<Longrightarrow> \<not> abort s \<Longrightarrow> settled s = Pending
   \<Longrightarrow> accumBytes s \<le> sz
   \<Longrightarrow> sz < accumBytes s + sum_list (map length cs)
   \<Longrightarrow> (case t of None \<Rightarrow> True | Some k \<Rightarrow> length cs \<le> k)
   \<Longrightarrow> settled (run sz e t (map Data cs @ rest) s) = Rejected BodyTooLarge"
proof (induction cs arbitrary: s t)
  case Nil
  then show ?case by simp
next
  case (Cons c cs)
  have t: "t \<noteq> Some 0"
    using Cons.prems(6) by (auto split: option.splits)
  have step: "run sz e t (map Data (c # cs) @ rest) s
                   = run sz e (map_option (\<lambda>k. k - 1) t) (map Data cs @ rest) (on_data sz c s)"
    using t by simp
  show ?case
  proof (cases "sz < accumBytes s + length c")
    case True
    with Cons.prems have "settled (on_data sz c s) = Rejected BodyTooLarge"
      by (simp add: on_data_def settle_def)
    then show ?thesis
      by (simp only: step) (simp add: run_settled)
  next
    case False
    with Cons.prems have s': "on_data sz c s
        = s\<lparr>accumBytes := accumBytes s + length c, accum := accum s @ [c]\<rparr>"
      by (simp add: on_data_def)
    have "settled (run sz e (map_option (\<lambda>k. k - 1) t) (map Data cs @ rest) (on_data sz c s))
          = Rejected BodyTooLarge"
      using Cons.prems False
      by (intro Cons.IH) (auto simp: s' split: option.splits)
    then show ?thesis
      by (simp only: step)
  qed
qed

lemma consumeBody_stream:
  "\<not> disturbed data \<Longrightarrow> error data = None
   \<Longrightarrow> fst (consumeBody e (data\<lparr>body := Stream s\<rparr>))
       = settled (run (size_opt data) e (if timeout data \<noteq> 0 then Some (timer_after e) else None)
           (stream_events s) \<lparr>accum = [], accumBytes = 0, abort = False, settled = Pending\<rparr>)"
  by (simp add: consumeBody_def consume_stream_def)

lemma consumeBody_blob:
  "\<not> disturbed data \<Longrightarrow> error data = None
   \<Longrightarrow> fst (consumeBody e (data\<lparr>body := Blob b\<rparr>))
       = settled (run (size_opt data) e (if timeout data \<noteq> 0 then Some (timer_after e) else None)
           (stream_events (blob_stream b)) \<lparr>accum = [], accumBytes = 0, abort = False, settled = Pending\<rparr>)"
  by (simp add: consumeBody_def consume_stream_def)

text \<open>
  C2, as amended. For a body not yet used, with no error kept and a maximum size other
  than 0, whose stream (its own, or the one of its blob) emits chunks that together exceed
  the maximum before the stream finishes and before an armed timer expires, the drain is
  rejected with \<open>BodyTooLarge\<close>. A buffer is resolved as it is, whatever its length.
\<close>

theorem size_limit_on_streams:
  assumes "\<not> disturbed data" and "error data = None" and "size_opt data \<noteq> 0"
    and "stream_events s = map Data cs @ rest"
    and "size_opt data < sum_list (map length cs)"
    and "timeout data = 0 \<or> length cs \<le> timer_after e"
  shows "fst (consumeBody e (data\<lparr>body := Stream s\<rparr>)) = Rejected BodyTooLarge
    \<and> fst (consumeBody e (data\<lparr>body := Blob (b\<lparr>blob_stream := s\<rparr>)\<rparr>)) = Rejected BodyTooLarge
    \<and> fst (consumeBody e (data\<lparr>body := Buffer buf\<rparr>)) = Resolved buf"
proof -
  let ?t = "if timeout data \<noteq> 0 then Some (timer_after e) else None"
  let ?s0 = "\<lparr>accum = [], accumBytes = 0, abort = False, settled = Pending\<rparr>"
  have t: "case ?t of None \<Rightarrow> True | Some k \<Rightarrow> length cs \<le> k"
    using assms(6) by auto
  have "settled (run (size_opt data) e ?t (map Data cs @ rest) ?s0) = Rejected BodyTooLarge"
    using assms(3,5) t by (intro run_too_large) simp_all
  then have r: "settled (run (size_opt data) e ?t (stream_events s) ?s0) = Rejected BodyTooLarge"
    by (simp only: assms(4))
  have "fst (consumeBody e (data\<lparr>body := Buffer buf\<rparr>)) = Resolved buf"
    using assms(1,2) by (simp add: consumeBody_def)
  with r assms(1,2) show ?thesis
    by (simp add: consumeBody_stream consumeBody_blob)
qed

text \<open>
  The amended C2 at a stream, and at a blob, that emit \<^verbatim>\<open>hello\<close> in one chunk,
  with the maximum 3.
\<close>

theorem size_limit_on_streams_witness:
  "fst (consumeBody \<lparr>timer_after = 0, kMaxLength = 1000\<rparr>
         (Body_new (JStream (Readable no_caps [Data (Buffer_from_string ''hello''), End])) 3 0
            :: nat Body))
     = Rejected BodyTooLarge
   \<and> fst (consumeBody \<lparr>timer_after = 0, kMaxLength = 1000\<rparr>
         (Body_new (JBlob \<lparr>blob_type = ''text/plain'', blob_size = 5,
             blob_stream = Readable no_caps [Data (Buffer_from_string ''hello''), End]\<rparr>) 3 0
            :: nat Body))
     = Rejected BodyTooLarge"
  using size_limit_on_streams
    [of "Body_new (JStream (Readable no_caps [Data (Buffer_from_string ''hello''), End])) 3 0
           :: nat Body"
      "Readable no_caps [Data (Buffer_from_string ''hello''), End]"
      "[Buffer_from_string ''hello'']" "[End]" "\<lparr>timer_after = 0, kMaxLength = 1000\<rparr>"
      "\<lparr>blob_type = ''text/plain'', blob_size = 5, blob_stream = Readable no_caps []\<rparr>" "[]"]
  by (simp add: Body_new_def Buffer_from_string_def utf8_unit_def unit_of_def)

text \<open>
  C2 as it is written fails at the buffer of \<^verbatim>\<open>hello\<close> with the maximum 3: the
  drain resolves to the five bytes.
\<close>

theorem size_limit_skips_buffers:
  "3 < length (Buffer_from_string ''hello'')
   \<and> fst (consumeBody \<lparr>timer_after = 0, kMaxLength = 1000\<rparr>
         (Body_new (JBuffer (Buffer_from_string ''hello'')) 3 0 :: nat Body))
     = Resolved (Buffer_from_string ''hello'')
   \<and> fst (consumeBody \<lparr>timer_after = 0, kMaxLength = 1000\<rparr>
         (Body_new (JBuffer (Buffer_from_string ''hello'')) 3 0 :: nat Body))
     \<noteq> Rejected BodyTooLarge"
  by (simp add: consumeBody_def Body_new_def Buffer_from_string_def utf8_unit_def unit_of_def)

lemma run_Some_0: "run sz e (Some 0) evs s = on_timeout s"
  by (cases evs) simp_all

lemma run_Nil_resolved:
  "settled (run sz e t [] s) = Resolved bs \<Longrightarrow> settled s = Resolved bs"
  by (cases "settled s = Pending")
    (auto simp: on_timeout_def settle_def on_timeout_settled split: option.splits)

lemma tee_Read: "tee h Read written evs = pipe evs"
  by (induction evs arbitrary: written rule: pipe.induct) (simp_all add: paused_for_good_def)

lemma tee_prefix: "prefix (tee h r written evs) (pipe evs)"
  by (induction evs arbitrary: written rule: pipe.induct) simp_all

lemma run_tee_resolved:
  "settled (run sz e t (tee h r written evs) s) = Resolved bs
   \<Longrightarrow> settled (run sz e t evs s) = Resolved bs"
proof (induction evs arbitrary: t s written)
  case Nil
  then show ?case by simp
next
  case (Cons ev evs)
  show ?case
  proof (cases "t = Some 0")
    case True
    with Cons.prems show ?thesis
      by (simp add: run_Some_0)
  next
    case False
    show ?thesis
    proof (cases ev)
      case (Data chunk)
      show ?thesis
      proof (cases "paused_for_good h r (written @ [chunk])")
        case True
        with Data False Cons.prems
        have "settled (run sz e (map_option (\<lambda>k. k - 1) t) [] (on_data sz chunk s)) = Resolved bs"
          by simp
        then have "settled (on_data sz chunk s) = Resolved bs"
          by (rule run_Nil_resolved)
        with Data False show ?thesis
          by (simp add: run_settled)
      next
        case stay: False
        with Data False Cons show ?thesis by simp
      qed
    next
      case End
      with False Cons.prems show ?thesis by simp
    next
      case (Error err)
      with Cons.prems have "settled (run sz e t [] s) = Resolved bs"
        by simp
      then have "settled s = Resolved bs"
        by (rule run_Nil_resolved)
      with False Error show ?thesis
        by (simp add: on_finished_settled)
    qed
  qed
qed

lemma run_pipe_resolved:
  "settled (run sz e t evs s) = Resolved bs \<Longrightarrow> settled (run sz e t (pipe evs) s) = Resolved bs"
proof (induction evs arbitrary: t s)
  case Nil
  then show ?case by simp
next
  case (Cons ev evs)
  show ?case
  proof (cases "t = Some 0")
    case True
    with Cons.prems show ?thesis
      by (simp add: run_Some_0)
  next
    case False
    show ?thesis
    proof (cases ev)
      case (Data chunk)
      with False Cons show ?thesis by simp
    next
      case End
      with False Cons.prems show ?thesis by simp
    next
      case (Error err)
      with False Cons.prems have fin: "settled (on_finished e (Some err) s) = Resolved bs"
        by simp
      have "settled s = Resolved bs"
      proof (cases "settled s = Pending")
        case True
        with fin show ?thesis
          by (auto simp: on_finished_def settle_def split: if_splits)
      next
        case False
        with fin show ?thesis
          by (simp add: on_finished_settled)
      qed
      with Error show ?thesis
        by (simp add: on_timeout_settled split: option.splits)
    qed
  qed
qed

lemma consume_stream_branch:
  "consume_stream e d (PassThrough h r s) = Resolved bs \<Longrightarrow> consume_stream e d s = Resolved bs"
  unfolding consume_stream_def stream_events.simps by (rule run_tee_resolved)

lemma consume_stream_branch_Read:
  "consume_stream e d (PassThrough h Read s) = Resolved bs \<longleftrightarrow> consume_stream e d s = Resolved bs"
proof
  assume "consume_stream e d (PassThrough h Read s) = Resolved bs"
  then show "consume_stream e d s = Resolved bs"
    by (rule consume_stream_branch)
next
  assume "consume_stream e d s = Resolved bs"
  then show "consume_stream e d (PassThrough h Read s) = Resolved bs"
    unfolding consume_stream_def stream_events.simps tee_Read by (rule run_pipe_resolved)
qed

text \<open>
  C9, as amended. \<open>clone\<close> throws \<open>CloneAfterConsumption\<close> exactly when the
  body is used. Otherwise no body, a buffer, a blob and a stream with
  \<^verbatim>\<open>getBoundary\<close> are returned as they are and the instance keeps its body; any other
  stream is piped into two \<^verbatim>\<open>PassThrough\<close> streams of the given
  \<^verbatim>\<open>highWaterMark\<close>, one returned and one kept by the instance. A branch whose
  sibling is read emits the events of a pipe from the source, and a drain of it resolves
  to some bytes exactly when a drain of the source would. Whatever the sibling does, a
  branch emits a prefix of these events, and if a drain of it resolves, then to the bytes
  the source would give.
\<close>

theorem clone_cases:
  "(clone instance h readers = Inl CloneAfterConsumption \<longleftrightarrow> bodyUsed instance)
   \<and> (\<not> bodyUsed instance \<longrightarrow> body instance = Null
        \<longrightarrow> clone instance h readers = Inr (Null, instance))
   \<and> (\<not> bodyUsed instance \<longrightarrow> body instance = Buffer buf
        \<longrightarrow> clone instance h readers = Inr (Buffer buf, instance))
   \<and> (\<not> bodyUsed instance \<longrightarrow> body instance = Blob b
        \<longrightarrow> clone instance h readers = Inr (Blob b, instance))
   \<and> (\<not> bodyUsed instance \<longrightarrow> body instance = Stream s \<longrightarrow> getBoundary (stream_caps s) = Some g
        \<longrightarrow> clone instance h readers = Inr (Stream s, instance))
   \<and> (\<not> bodyUsed instance \<longrightarrow> body instance = Stream s \<longrightarrow> getBoundary (stream_caps s) = None
        \<longrightarrow> clone instance h (mine, theirs)
              = Inr (Stream (PassThrough h mine s), instance\<lparr>body := Stream (PassThrough h theirs s)\<rparr>)
            \<and> stream_events (PassThrough h Read s) = pipe (stream_events s)
            \<and> (consume_stream e d (PassThrough h Read s) = Resolved bs
                 \<longleftrightarrow> consume_stream e d s = Resolved bs)
            \<and> prefix (stream_events (PassThrough h r s)) (pipe (stream_events s))
            \<and> (consume_stream e d (PassThrough h r s) = Resolved bs
                 \<longrightarrow> consume_stream e d s = Resolved bs))"
proof -
  have c1: "clone instance h readers = Inl CloneAfterConsumption \<longleftrightarrow> bodyUsed instance"
    by (simp add: clone_def Let_def split: source.splits)
  have c2: "\<not> bodyUsed instance \<longrightarrow> body instance = Null
        \<longrightarrow> clone instance h readers = Inr (Null, instance)"
    by (simp add: clone_def)
  have c3: "\<not> bodyUsed instance \<longrightarrow> body instance = Buffer buf
        \<longrightarrow> clone instance h readers = Inr (Buffer buf, instance)"
    by (simp add: clone_def)
  have c4: "\<not> bodyUsed instance \<longrightarrow> body instance = Blob b
        \<longrightarrow> clone instance h readers = Inr (Blob b, instance)"
    by (simp add: clone_def)
  have c5: "\<not> bodyUsed instance \<longrightarrow> body instance = Stream s \<longrightarrow> getBoundary (stream_caps s) = Some g
        \<longrightarrow> clone instance h readers = Inr (Stream s, instance)"
    by (simp add: clone_def)
  have both: "stream_events (PassThrough h Read s) = pipe (stream_events s)"
    by (simp add: tee_Read)
  have part: "prefix (stream_events (PassThrough h r s)) (pipe (stream_events s))"
    by (simp add: tee_prefix)
  note read = consume_stream_branch_Read [of e d h s bs]
  have c6: "\<not> bodyUsed instance \<longrightarrow> body instance = Stream s \<longrightarrow> getBoundary (stream_caps s) = None
        \<longrightarrow> clone instance h (mine, theirs)
              = Inr (Stream (PassThrough h mine s), instance\<lparr>body := Stream (PassThrough h theirs s)\<rparr>)
            \<and> stream_events (PassThrough h Read s) = pipe (stream_events s)
            \<and> (consume_stream e d (PassThrough h Read s) = Resolved bs
                 \<longleftrightarrow> consume_stream e d s = Resolved bs)
            \<and> prefix (stream_events (PassThrough h r s)) (pipe (stream_events s))
            \<and> (consume_stream e d (PassThrough h r s) = Resolved bs
                 \<longrightarrow> consume_stream e d s = Resolved bs)"
  proof (intro impI conjI)
    assume "\<not> bodyUsed instance" and "body instance = Stream s"
      and "getBoundary (stream_caps s) = None"
    then show "clone instance h (mine, theirs)
        = Inr (Stream (PassThrough h mine s), instance\<lparr>body := Stream (PassThrough h theirs s)\<rparr>)"
      by (simp add: clone_def)
  next
    show "stream_events (PassThrough h Read s) = pipe (stream_events s)"
      by (rule both)
  next
    show "consume_stream e d (PassThrough h Read s) = Resolved bs
        \<longleftrightarrow> consume_stream e d s = Resolved bs"
      by (rule read)
  next
    show "prefix (stream_events (PassThrough h r s)) (pipe (stream_events s))"
      by (rule part)
  next
    assume "consume_stream e d (PassThrough h r s) = Resolved bs"
    then show "consume_stream e d s = Resolved bs"
      by (rule consume_stream_branch)
  qed
  from c1 c2 c3 c4 c5 c6 show ?thesis
    by (intro conjI) assumption+
qed

text \<open>
  The amended C9 at a used body, at no body, a buffer, a form-data stream, and a stream of
  two chunks whose returned branch stays unread below its \<^verbatim>\<open>highWaterMark\<close>.
\<close>

theorem clone_cases_witness:
  "clone ((Body_new JNull 0 0 :: nat Body)\<lparr>disturbed := True\<rparr>) 16384 (Read, Read)
     = Inl CloneAfterConsumption
   \<and> clone (Body_new JNull 0 0 :: nat Body) 16384 (Read, Read) = Inr (Null, Body_new JNull 0 0)
   \<and> clone (Body_new (JBuffer [1, 2]) 0 0 :: nat Body) 16384 (Read, Read)
       = Inr (Buffer [1, 2], Body_new (JBuffer [1, 2]) 0 0)
   \<and> clone (Body_new (JStream (Readable (no_caps\<lparr>getBoundary := Some ''xyz''\<rparr>) [End])) 0 0
              :: nat Body) 16384 (Read, Read)
       = Inr (Stream (Readable (no_caps\<lparr>getBoundary := Some ''xyz''\<rparr>) [End]),
              Body_new (JStream (Readable (no_caps\<lparr>getBoundary := Some ''xyz''\<rparr>) [End])) 0 0)
   \<and> clone (Body_new (JStream (Readable no_caps [Data [1, 2], Data [3], End])) 0 0 :: nat Body)
         16384 (Read, Unread reaches_highWaterMark)
       = Inr (Stream (PassThrough 16384 Read (Readable no_caps [Data [1, 2], Data [3], End])),
              (Body_new (JStream (Readable no_caps [Data [1, 2], Data [3], End])) 0 0)
                \<lparr>body := Stream (PassThrough 16384 (Unread reaches_highWaterMark)
                                   (Readable no_caps [Data [1, 2], Data [3], End]))\<rparr>)
   \<and> consume_stream \<lparr>timer_after = 0, kMaxLength = 1000\<rparr> (Body_new JNull 0 0 :: nat Body)
         (PassThrough (16384 :: nat) Read (Readable no_caps [Data [1, 2], Data [3], End]))
       = Resolved [1, 2, 3]
   \<and> consume_stream \<lparr>timer_after = 0, kMaxLength = 1000\<rparr> (Body_new JNull 0 0 :: nat Body)
         (Readable no_caps [Data [1, 2], Data [3], End])
       = Resolved [1, 2, 3]"
proof -
  let ?e = "\<lparr>timer_after = 0, kMaxLength = 1000\<rparr>"
  let ?s = "Readable no_caps [Data [1, 2], Data [3], End] :: nat stream"
  let ?f = "Readable (no_caps\<lparr>getBoundary := Some ''xyz''\<rparr>) [End] :: nat stream"
  let ?u = "Unread reaches_highWaterMark"
  have r: "consume_stream ?e (Body_new JNull 0 0 :: nat Body) ?s = Resolved [1, 2, 3]"
    by (simp add: consume_stream_def Body_new_def on_data_def on_finished_def settle_def)
  have u: "consume_stream ?e (Body_new JNull 0 0 :: nat Body) (PassThrough 16384 ?u ?s)
           = Resolved [1, 2, 3]"
    by (simp add: consume_stream_def Body_new_def on_data_def on_finished_def settle_def
        paused_for_good_def reaches_highWaterMark_def)
  have w1: "clone ((Body_new JNull 0 0 :: nat Body)\<lparr>disturbed := True\<rparr>) 16384 (Read, Read)
     = Inl CloneAfterConsumption"
    using clone_cases [of "(Body_new JNull 0 0 :: nat Body)\<lparr>disturbed := True\<rparr>" 16384 "(Read, Read)"]
    by (simp add: bodyUsed_def)
  have w2: "clone (Body_new JNull 0 0 :: nat Body) 16384 (Read, Read) = Inr (Null, Body_new JNull 0 0)"
    using clone_cases [of "Body_new JNull 0 0 :: nat Body" 16384 "(Read, Read)"]
    by (simp add: bodyUsed_def Body_new_def)
  have w3: "clone (Body_new (JBuffer [1, 2]) 0 0 :: nat Body) 16384 (Read, Read)
       = Inr (Buffer [1, 2], Body_new (JBuffer [1, 2]) 0 0)"
    using clone_cases [of "Body_new (JBuffer [1, 2]) 0 0 :: nat Body" 16384 "(Read, Read)" "[1, 2]"]
    by (simp add: bodyUsed_def Body_new_def)
  have w4: "clone (Body_new (JStream ?f) 0 0 :: nat Body) 16384 (Read, Read)
       = Inr (Stream ?f, Body_new (JStream ?f) 0 0)"
    using clone_cases [of "Body_new (JStream ?f) 0 0 :: nat Body" 16384 "(Read, Read)" _ _ ?f "''xyz''"]
    by (simp add: bodyUsed_def Body_new_def no_caps_def)
  have w5: "clone (Body_new (JStream ?s) 0 0 :: nat Body) 16384 (Read, ?u)
       = Inr (Stream (PassThrough 16384 Read ?s),
              (Body_new (JStream ?s) 0 0)\<lparr>body := Stream (PassThrough 16384 ?u ?s)\<rparr>)
     \<and> consume_stream ?e (Body_new JNull 0 0 :: nat Body) (PassThrough 16384 Read ?s)
       = Resolved [1, 2, 3]
     \<and> consume_stream ?e (Body_new JNull 0 0 :: nat Body) ?s = Resolved [1, 2, 3]"
    using r u
      clone_cases [of "Body_new (JStream ?s) 0 0 :: nat Body" 16384 _ _ _ ?s _ Read ?u ?e
        "Body_new JNull 0 0 :: nat Body" "[1, 2, 3]" ?u]
    by (simp add: bodyUsed_def Body_new_def no_caps_def)
  from w1 w2 w3 w4 w5 show ?thesis
    by blast
qed

text \<open>
  C9 as it is written fails: the branches are not independent. After a clone with the
  \<^verbatim>\<open>highWaterMark\<close> 1 of a stream of three bytes, the drain of the instance never
  settles while the returned branch is unread, and resolves to the three bytes when that
  branch is read, as the drain of the stream itself would.
\<close>

theorem clone_branches_coupled:
  "clone (Body_new (JStream (Readable no_caps [Data [1, 2], Data [3], End])) 0 0 :: nat Body)
       1 (Read, Unread reaches_highWaterMark)
     = Inr (Stream (PassThrough 1 Read (Readable no_caps [Data [1, 2], Data [3], End])),
            (Body_new (JStream (Readable no_caps [Data [1, 2], Data [3], End])) 0 0)
              \<lparr>body := Stream (PassThrough 1 (Unread reaches_highWaterMark)
                                 (Readable no_caps [Data [1, 2], Data [3], End]))\<rparr>)
   \<and> fst (consumeBody \<lparr>timer_after = 0, kMaxLength = 1000\<rparr>
            ((Body_new (JStream (Readable no_caps [Data [1, 2], Data [3], End])) 0 0 :: nat Body)
               \<lparr>body := Stream (PassThrough 1 (Unread reaches_highWaterMark)
                                  (Readable no_caps [Data [1, 2], Data [3], End]))\<rparr>))
       = Pending
   \<and> fst (consumeBody \<lparr>timer_after = 0, kMaxLength = 1000\<rparr>
            ((Body_new (JStream (Readable no_caps [Data [1, 2], Data [3], End])) 0 0 :: nat Body)
               \<lparr>body := Stream (PassThrough 1 Read
                                  (Readable no_caps [Data [1, 2], Data [3], End]))\<rparr>))
       = Resolved [1, 2, 3]
   \<and> fst (consumeBody \<lparr>timer_after = 0, kMaxLength = 1000\<rparr>
            (Body_new (JStream (Readable no_caps [Data [1, 2], Data [3], End])) 0 0 :: nat Body))
       = Resolved [1, 2, 3]"
  by (simp add: clone_def bodyUsed_def Body_new_def no_caps_def consumeBody_def
      consume_stream_def on_data_def on_finished_def settle_def paused_for_good_def
      reaches_highWaterMark_def)

text \<open>
  C10. A body made from \<^verbatim>\<open>undefined\<close> holds the buffer of the string
  \<^verbatim>\<open>undefined\<close>, not the absent body: a drain resolves to these 9 bytes, and
  \<open>extractContentType\<close> of \<^verbatim>\<open>undefined\<close> is the plain-text type.
\<close>

theorem undefined_is_text:
  "body (Body_new JUndefined sz tm) = Buffer (Buffer_from_string ''undefined'')
   \<and> body (Body_new JUndefined sz tm) \<noteq> Null
   \<and> Buffer_from_string ''undefined'' = [0x75, 0x6E, 0x64, 0x65, 0x66, 0x69, 0x6E, 0x65, 0x64]
   \<and> fst (consumeBody e (Body_new JUndefined sz tm))
       = Resolved [0x75, 0x6E, 0x64, 0x65, 0x66, 0x69, 0x6E, 0x65, 0x64]
   \<and> fst (consumeBody e (Body_new JUndefined sz tm)) \<noteq> Resolved []
   \<and> extractContentType JUndefined = Some ''text/plain;charset=UTF-8''
   \<and> extractContentType JUndefined \<noteq> None"
  by (simp add: Body_new_def consumeBody_def extractContentType_def Buffer_from_string_def
      utf8_unit_def unit_of_def)

text \<open>
  C7. The results of \<open>extractContentType\<close>, input by input. \<^verbatim>\<open>null\<close> gives
  \<^verbatim>\<open>null\<close>, but \<^verbatim>\<open>undefined\<close>, the absent input, gives the plain-text type:
  the first test compares with \<^verbatim>\<open>null\<close> strictly.
\<close>

theorem extractContentType_table:
  "extractContentType (JNull :: 'h js_value) = None
   \<and> extractContentType (JUndefined :: 'h js_value) = Some ''text/plain;charset=UTF-8''
   \<and> extractContentType (JString s :: 'h js_value) = Some ''text/plain;charset=UTF-8''
   \<and> extractContentType (JURLSearchParams s :: 'h js_value)
       = Some ''application/x-www-form-urlencoded;charset=UTF-8''
   \<and> extractContentType (JBlob (b :: 'h blob))
       = (if blob_type b = [] then None else Some (blob_type b))
   \<and> extractContentType (JBuffer buf :: 'h js_value) = None
   \<and> extractContentType (JArrayBuffer buf :: 'h js_value) = None
   \<and> extractContentType (JArrayBufferView buf off len :: 'h js_value) = None
   \<and> extractContentType (JStream (Readable (caps\<lparr>getBoundary := Some g\<rparr>) evs) :: 'h js_value)
       = Some (''multipart/form-data;boundary='' @ g)
   \<and> extractContentType (JOther str (Some g) :: 'h js_value)
       = Some (''multipart/form-data;boundary='' @ g)
   \<and> extractContentType (JStream (Readable (caps\<lparr>getBoundary := None\<rparr>) evs) :: 'h js_value) = None
   \<and> extractContentType (JStream (PassThrough (h :: 'h) r st)) = None
   \<and> extractContentType (JOther str None :: 'h js_value) = Some ''text/plain;charset=UTF-8''"
  by (simp add: extractContentType_def no_caps_def)

end
